theory Spec2Isabelle
  imports
    Main
    "HOL-Library.Char_ord"
    "HOL-Library.List_Lexorder"
    "HOL-Library.Product_Lexorder"
    "HOL-Library.Option_ord"
    "HOL-Library.AList"
    "HOL-Library.Sublist"
begin

section \<open>The benchmark report generator \<open>gen_benchmark_report.py\<close>\<close>

text \<open>
  The script reads \<open>benchmark.csv\<close> through \<open>csv.DictReader\<close>, files every row under
  \<open>data[func][(selectors, facets)][impl]\<close>, and renders two Markdown tables after a fixed
  preamble. The model follows the script statement by statement.

  Modelling boundary. Text is a \<open>string\<close> over the 8-bit characters, read as code points
  0..255. The input is the list of records the low-level \<open>csv.reader\<close> yields (a list of
  fields per line, \<open>[]\<close> for a blank line); splitting the file into fields is the C module's
  work and not part of the script. A Python value that is \<open>str\<close> or \<open>None\<close> is a
  \<open>string option\<close>. Python's \<open>int\<close> is \<open>int\<close>; the interpreter's configurable limit on the
  length of a decimal literal is not modelled. Exceptions are values of \<open>error\<close>.
\<close>

subsection \<open>Errors\<close>

datatype error = KeyError | TypeError | ValueError

subsection \<open>Built-ins: \<open>int(str)\<close>, \<open>str(int)\<close>, the \<open>,\<close> format, \<open>str.join\<close>\<close>

definition nl :: string where
  "nl = [CHR 0x0A]"

text \<open>The white space \<open>int()\<close> strips: tab, LF, VT, FF, CR, space, and NEL and NBSP.\<close>

definition py_isspace :: "char \<Rightarrow> bool" where
  "py_isspace c = ((of_char c :: nat) \<in> {9, 10, 11, 12, 13, 32, 133, 160})"

definition strip :: "string \<Rightarrow> string" where
  "strip s = rev (dropWhile py_isspace (rev (dropWhile py_isspace s)))"

definition is_digit :: "char \<Rightarrow> bool" where
  "is_digit c = (c \<in> set ''0123456789'')"

definition digit_val :: "char \<Rightarrow> nat" where
  "digit_val c = of_char c - 48"

text \<open>
  The digits of a literal: a digit first, a digit last, and single underscores only between
  two digits. \<open>digits_from acc\<close> is called after the first character was seen to be a digit.
\<close>

fun digits_from :: "nat \<Rightarrow> string \<Rightarrow> nat option" where
  "digits_from acc [] = Some acc"
| "digits_from acc [c] = (if is_digit c then Some (acc * 10 + digit_val c) else None)"
| "digits_from acc (c # d # cs) =
     (if is_digit c then digits_from (acc * 10 + digit_val c) (d # cs)
      else if c = CHR ''_'' \<and> is_digit d then digits_from acc (d # cs)
      else None)"

definition digits_value :: "string \<Rightarrow> nat option" where
  "digits_value u = (case u of [] \<Rightarrow> None | c # cs \<Rightarrow> if is_digit c then digits_from 0 u else None)"

definition py_int :: "string \<Rightarrow> error + int" where
  "py_int s =
     (let t = strip s;
          neg = (t \<noteq> [] \<and> hd t = CHR ''-'');
          u = (if t \<noteq> [] \<and> (hd t = CHR ''-'' \<or> hd t = CHR ''+'') then tl t else t)
      in case digits_value u of
           None \<Rightarrow> Inl ValueError
         | Some n \<Rightarrow> Inr (if neg then - int n else int n))"

text \<open>\<open>int(x)\<close> for \<open>x\<close> a \<open>str\<close> or \<open>None\<close>: \<open>int(None)\<close> raises \<open>TypeError\<close>.\<close>

definition py_int_arg :: "string option \<Rightarrow> error + int" where
  "py_int_arg x = (case x of None \<Rightarrow> Inl TypeError | Some s \<Rightarrow> py_int s)"

definition digit_char :: "nat \<Rightarrow> char" where
  "digit_char d = ''0123456789'' ! d"

fun digits :: "nat \<Rightarrow> string" where
  "digits n = (if n < 10 then [digit_char n] else digits (n div 10) @ [digit_char (n mod 10)])"

declare digits.simps [simp del]

definition sign_str :: "int \<Rightarrow> string" where
  "sign_str n = (if n < 0 then ''-'' else [])"

text \<open>\<open>str(n)\<close>, also what \<open>f"{n}"\<close> gives.\<close>

definition py_str :: "int \<Rightarrow> string" where
  "py_str n = sign_str n @ digits (nat \<bar>n\<bar>)"

text \<open>
  \<open>f"{n:,}"\<close>: a comma before every group of three digits counted from the right, the sign
  in front. \<open>group3\<close> works on the digits in reverse.
\<close>

fun group3 :: "string \<Rightarrow> string" where
  "group3 (a # b # c # d # cs) = a # b # c # CHR '','' # group3 (d # cs)"
| "group3 cs = cs"

definition fmt_comma :: "int \<Rightarrow> string" where
  "fmt_comma n = sign_str n @ rev (group3 (rev (digits (nat \<bar>n\<bar>))))"

fun join :: "string \<Rightarrow> string list \<Rightarrow> string" where
  "join sep [] = []"
| "join sep [x] = x"
| "join sep (x # y # ys) = x @ sep @ join sep (y # ys)"

text \<open>
  \<open>sep.join(xs)\<close> raises \<open>TypeError\<close> when an item is \<open>None\<close>. \<open>str_items\<close> is that check:
  the items as strings, or the error.
\<close>

fun str_items :: "string option list \<Rightarrow> error + string list" where
  "str_items [] = Inr []"
| "str_items (None # xs) = Inl TypeError"
| "str_items (Some x # xs) = (case str_items xs of Inl e \<Rightarrow> Inl e | Inr ys \<Rightarrow> Inr (x # ys))"

text \<open>
  \<open>sorted(xs)\<close> on items that are \<open>str\<close> or \<open>None\<close>: with two or more items every item is
  compared with another one, and comparing \<open>None\<close> raises \<open>TypeError\<close>. Strings compare by
  code point, lexicographically.
\<close>

definition py_sorted :: "string option list \<Rightarrow> error + string option list" where
  "py_sorted xs = (if 2 \<le> length xs \<and> None \<in> set xs then Inl TypeError else Inr (sort xs))"

subsection \<open>\<open>csv.DictReader\<close>\<close>

type_synonym row = "string \<rightharpoonup> string option"

text \<open>
  One row as a dict: the field names zipped with the fields, and \<open>None\<close> (the \<open>restval\<close>)
  under every field name a short row leaves over. The fields a long row has beyond the
  header go under the key \<open>None\<close>, which the script never reads; they are left out.
\<close>

definition dict_row :: "string list \<Rightarrow> string list \<Rightarrow> row" where
  "dict_row fieldnames r =
     (let d = fold (\<lambda>(k, v) m. m(k \<mapsto> Some v)) (zip fieldnames r) Map.empty
      in if length r < length fieldnames
         then fold (\<lambda>k m. m(k \<mapsto> None)) (drop (length r) fieldnames) d
         else d)"

text \<open>The first record is the header; blank records after it are skipped.\<close>

fun dict_reader :: "string list list \<Rightarrow> row list" where
  "dict_reader [] = []"
| "dict_reader (fieldnames # rs) = map (dict_row fieldnames) (filter (\<lambda>r. r \<noteq> []) rs)"

text \<open>\<open>row[key]\<close>: \<open>KeyError\<close> when the key is not in the dict.\<close>

definition getitem :: "row \<Rightarrow> string \<Rightarrow> error + string option" where
  "getitem r key = (case r key of None \<Rightarrow> Inl KeyError | Some v \<Rightarrow> Inr v)"

subsection \<open>The ingest loop\<close>

record measurement =
  impl :: "string option"
  func :: "string option"
  facets :: int
  selectors :: int
  gas :: int

type_synonym impls = "(string option \<times> int) list"
type_synonym rows = "((int \<times> int) \<times> impls) list"
type_synonym data = "(string option \<times> rows) list"

text \<open>The five reads of the loop body, in the order of the script.\<close>

definition read_row :: "row \<Rightarrow> error + measurement" where
  "read_row r =
     (case getitem r ''Implementation'' of Inl e \<Rightarrow> Inl e | Inr i \<Rightarrow>
      case getitem r ''Function'' of Inl e \<Rightarrow> Inl e | Inr f \<Rightarrow>
      case getitem r ''Facets'' of Inl e \<Rightarrow> Inl e | Inr fs \<Rightarrow>
      case py_int_arg fs of Inl e \<Rightarrow> Inl e | Inr fa \<Rightarrow>
      case getitem r ''Selectors'' of Inl e \<Rightarrow> Inl e | Inr ss \<Rightarrow>
      case py_int_arg ss of Inl e \<Rightarrow> Inl e | Inr se \<Rightarrow>
      case getitem r ''GasUsed'' of Inl e \<Rightarrow> Inl e | Inr gs \<Rightarrow>
      case py_int_arg gs of Inl e \<Rightarrow> Inl e | Inr g \<Rightarrow>
      Inr \<lparr>impl = i, func = f, facets = fa, selectors = se, gas = g\<rparr>)"

text \<open>
  \<open>d[k]\<close> on a \<open>defaultdict\<close>: the value, or the default (an empty dict) for a missing key.
  Dicts are association lists in insertion order; \<open>AList.update\<close> keeps the place of a key
  that is there and appends a new one, as a Python dict does.
\<close>

definition get_default :: "('k \<times> ('a list)) list \<Rightarrow> 'k \<Rightarrow> 'a list" where
  "get_default d k = (case map_of d k of None \<Rightarrow> [] | Some v \<Rightarrow> v)"

text \<open>\<open>data[func][(selectors, facets)][impl] = gas\<close>\<close>

definition store :: "measurement \<Rightarrow> data \<Rightarrow> data" where
  "store m d =
     (let rs = get_default d (func m);
          im = get_default rs (selectors m, facets m)
      in AList.update (func m)
           (AList.update (selectors m, facets m) (AList.update (impl m) (gas m) im) rs) d)"

fun ingest :: "row list \<Rightarrow> data \<Rightarrow> error + data" where
  "ingest [] d = Inr d"
| "ingest (r # rs) d = (case read_row r of Inl e \<Rightarrow> Inl e | Inr m \<Rightarrow> ingest rs (store m d))"

subsection \<open>\<open>format_table\<close>\<close>

text \<open>One cell: \<open>impls.get(impl, "")\<close>, formatted with \<open>,\<close> when it is an \<open>int\<close>.\<close>

definition cell :: "impls \<Rightarrow> string \<Rightarrow> string" where
  "cell im i = (case map_of im (Some i) of None \<Rightarrow> [] | Some val \<Rightarrow> fmt_comma val)"

definition row_cells :: "string list \<Rightarrow> (int \<times> int) \<times> impls \<Rightarrow> string list" where
  "row_cells implementations kv =
     (py_str (fst (fst kv)) @ ''/'' @ py_str (snd (fst kv))) # map (cell (snd kv)) implementations"

definition data_line :: "string list \<Rightarrow> (int \<times> int) \<times> impls \<Rightarrow> string" where
  "data_line implementations kv = ''| '' @ join '' | '' (row_cells implementations kv) @ '' |''"

definition heading_line :: "string \<Rightarrow> string" where
  "heading_line func_name = ''## '' @ func_name @ '' Function Gas Costs'' @ nl"

definition header_line :: "string list \<Rightarrow> string" where
  "header_line implementations = ''| Selectors/Facets | '' @ join '' | '' implementations @ '' |''"

definition separator_line :: "string list \<Rightarrow> string" where
  "separator_line implementations =
     ''|'' @ join ''|'' (map (\<lambda>h. replicate (length h) CHR ''-'') (''Selectors/Facets'' # implementations))
       @ ''|''"

definition rule_line :: string where
  "rule_line = nl @ ''---'' @ nl"

text \<open>\<open>sorted(rows.items())\<close>: the keys of a dict are distinct, so the order is by key.\<close>

definition sorted_items :: "rows \<Rightarrow> rows" where
  "sorted_items rs = sort_key fst rs"

text \<open>The list \<open>md\<close> of \<open>format_table\<close>, for implementations that are all \<open>str\<close>.\<close>

definition table_md :: "string \<Rightarrow> rows \<Rightarrow> string list \<Rightarrow> string list" where
  "table_md func_name rs implementations =
     [heading_line func_name, header_line implementations, separator_line implementations]
       @ map (data_line implementations) (sorted_items rs) @ [rule_line]"

text \<open>
  \<open>format_table\<close>. Its only statement that can raise is the first \<open>join\<close> over
  \<open>implementations\<close>, when an item is \<open>None\<close>.
\<close>

definition format_table :: "string \<Rightarrow> rows \<Rightarrow> string option list \<Rightarrow> error + string" where
  "format_table func_name rs implementations =
     (case str_items implementations of
        Inl e \<Rightarrow> Inl e
      | Inr names \<Rightarrow> Inr (join nl (table_md func_name rs names)))"

subsection \<open>The script\<close>

text \<open>The keys of the innermost dicts, in the order the set comprehension visits them.\<close>

definition all_impls :: "data \<Rightarrow> string option list" where
  "all_impls d = concat (map (\<lambda>fd. concat (map (\<lambda>pair. map fst (snd pair)) (snd fd))) d)"

text \<open>
  A set yields its elements in an order that depends on the hash seed of the process: any
  list without repetition that has the set's elements.
\<close>

definition set_iteration :: "data \<Rightarrow> string option list \<Rightarrow> bool" where
  "set_iteration d e = (distinct e \<and> set e = set (all_impls d))"

definition preamble :: string where
  "preamble = join nl
     [[], [],
      ''# Diamond Loupe Gas Benchmark Report'',
      ''    '',
      ''## Usage'',
      [], [],
      ''Run the following command to execute the benchmark and generate the .csv results:'',
      ''```bash'',
      ''forge script script/LoupeBenchmark.s.sol --gas-limit 1000000000000000000'',
      ''```'',
      [],
      ''Use a very high gas limit to avoid out-of-gas errors during execution.'',
      [], [],
      ''Then, convert the CSV results into a Markdown report (BENCHMARK_REPORT.md) with:'',
      [],
      ''```bash'',
      ''python3 gen_benchmark_report.py '',
      ''```'',
      ''    **Compiler Settings in foundry.toml:**'',
      ''    - Optimizer Runs: 20,000'' @ [CHR 0x22],
      ''    - viaIR: Disabled'',
      []]"

text \<open>
  From \<open>implementations = sorted({...})\<close> to the assembled document \<open>md\<close>; \<open>e\<close> is the order
  in which the set yields its elements. Reading \<open>data["facets()"]\<close> adds an empty entry to
  the \<open>defaultdict\<close> when the key is missing; nothing reads \<open>data\<close> as a whole after that.
\<close>

definition report :: "string option list \<Rightarrow> data \<Rightarrow> error + string" where
  "report e d =
     (case py_sorted e of Inl err \<Rightarrow> Inl err | Inr implementations \<Rightarrow>
      case format_table ''facets()'' (get_default d (Some ''facets()'')) implementations of
        Inl err \<Rightarrow> Inl err | Inr t1 \<Rightarrow>
      case format_table ''facetAddresses()'' (get_default d (Some ''facetAddresses()''))
             implementations of
        Inl err \<Rightarrow> Inl err | Inr t2 \<Rightarrow>
      Inr (preamble @ t1 @ t2))"

text \<open>Ingest and rendering: the document, or the exception that ends the run.\<close>

definition run :: "string list list \<Rightarrow> error + string" where
  "run csv =
     (case ingest (dict_reader csv) [] of
        Inl err \<Rightarrow> Inl err
      | Inr d \<Rightarrow> report (remdups (all_impls d)) d)"

text \<open>
  The effects: the content of \<open>BENCHMARK_REPORT.md\<close> (\<open>None\<close> when there is no such file) and
  the lines printed. The file is opened for writing only after \<open>md\<close> is complete.
\<close>

record world =
  output_file :: "string option"
  console :: "string list"

definition main :: "string list list \<Rightarrow> world \<Rightarrow> error option \<times> world" where
  "main csv w =
     (case run csv of
        Inl err \<Rightarrow> (Some err, w)
      | Inr md \<Rightarrow>
          (None, w\<lparr>output_file := Some md,
                   console := console w @ [''Markdown report generated: BENCHMARK_REPORT.md'']\<rparr>))"

subsection \<open>Observers of the aggregation\<close>

text \<open>
  The key a measurement is filed under, the value the aggregation holds at a key, and the
  measurement of the last record of a list that has a given key.
\<close>

definition key_of :: "measurement \<Rightarrow> string option \<times> (int \<times> int) \<times> string option" where
  "key_of m = (func m, (selectors m, facets m), impl m)"

definition lookup :: "data \<Rightarrow> string option \<Rightarrow> int \<times> int \<Rightarrow> string option \<Rightarrow> int option" where
  "lookup d f k i = map_of (get_default (get_default d f) k) i"

definition latest :: "measurement list \<Rightarrow> string option \<times> (int \<times> int) \<times> string option \<Rightarrow> int option" where
  "latest ms key =
     (let xs = filter (\<lambda>m. key_of m = key) ms in if xs = [] then None else Some (gas (last xs)))"

text \<open>
  The column set in the words of the specification: the distinct implementation names of all
  records, in ascending order.
\<close>

definition columns :: "measurement list \<Rightarrow> string list" where
  "columns ms = sort (remdups (concat (map (\<lambda>m. case impl m of None \<Rightarrow> [] | Some i \<Rightarrow> [i]) ms)))"

text \<open>The document \<open>md\<close> the script assembles when all implementations are \<open>str\<close>.\<close>

definition document :: "data \<Rightarrow> string list \<Rightarrow> string" where
  "document d names =
     preamble
       @ join nl (table_md ''facets()'' (get_default d (Some ''facets()'')) names)
       @ join nl (table_md ''facetAddresses()'' (get_default d (Some ''facetAddresses()'')) names)"

subsection \<open>Rendered functions and rows that cannot be read\<close>

text \<open>A record of one of the two functions the script renders.\<close>

definition recognised :: "measurement \<Rightarrow> bool" where
  "recognised m = (func m = Some ''facets()'' \<or> func m = Some ''facetAddresses()'')"

text \<open>
  The error conditions in the words of the specification: a field that is missing or is
  not the text of an integer, and a row that lacks one of the five fields or has such a
  numeric field.
\<close>

definition field_unparsable :: "row \<Rightarrow> string \<Rightarrow> bool" where
  "field_unparsable r k =
     (case r k of None \<Rightarrow> True
      | Some v \<Rightarrow> (case py_int_arg v of Inl e \<Rightarrow> True | Inr n \<Rightarrow> False))"

definition required_fields :: "string list" where
  "required_fields = [''Implementation'', ''Function'', ''Facets'', ''Selectors'', ''GasUsed'']"

definition bad_row :: "row \<Rightarrow> bool" where
  "bad_row r =
     (r ''Implementation'' = None \<or> r ''Function'' = None \<or> field_unparsable r ''Facets''
      \<or> field_unparsable r ''Selectors'' \<or> field_unparsable r ''GasUsed'')"

subsection \<open>A sample input\<close>

text \<open>
  Six records in no particular order, with a blank line, a repeated key and a function the
  report does not render; the records \<open>read_row\<close> makes of them and the aggregation they
  leave.
\<close>

definition sample_csv :: "string list list" where
  "sample_csv = [[''Implementation'', ''Function'', ''Facets'', ''Selectors'', ''GasUsed''],
     [''ImplB'', ''facets()'', ''2'', ''5'', ''120000''],
     [''ImplA'', ''facets()'', ''7'', ''3'', ''1234567''],
     [''ImplA'', ''facets()'', ''2'', ''5'', ''100''],
     [],
     [''ImplC'', ''unknownFn()'', ''1'', ''1'', ''5''],
     [''ImplA'', ''facets()'', ''2'', ''5'', ''100000''],
     [''ImplB'', ''facetAddresses()'', ''1'', ''10'', ''999'']]"

definition sample_records :: "measurement list" where
  "sample_records = [\<lparr>impl = Some ''ImplB'', func = Some ''facets()'', facets = 2, selectors = 5, gas = 120000\<rparr>,
              \<lparr>impl = Some ''ImplA'', func = Some ''facets()'', facets = 7, selectors = 3, gas = 1234567\<rparr>,
              \<lparr>impl = Some ''ImplA'', func = Some ''facets()'', facets = 2, selectors = 5, gas = 100\<rparr>,
              \<lparr>impl = Some ''ImplC'', func = Some ''unknownFn()'', facets = 1, selectors = 1, gas = 5\<rparr>,
              \<lparr>impl = Some ''ImplA'', func = Some ''facets()'', facets = 2, selectors = 5, gas = 100000\<rparr>,
              \<lparr>impl = Some ''ImplB'', func = Some ''facetAddresses()'', facets = 1, selectors = 10, gas = 999\<rparr>]"

definition sample_data :: data where
  "sample_data = [(Some ''facets()'', [((5, 2), [(Some ''ImplB'', 120000), (Some ''ImplA'', 100000)]),
                            ((3, 7), [(Some ''ImplA'', 1234567)])]),
      (Some ''unknownFn()'', [((1, 1), [(Some ''ImplC'', 5)])]),
      (Some ''facetAddresses()'', [((10, 1), [(Some ''ImplB'', 999)])])]"

text \<open>The report for the sample input.\<close>

definition sample_document :: string where
  "sample_document =
     preamble
      @ join nl [heading_line ''facets()'', ''| Selectors/Facets | ImplA | ImplB | ImplC |'',
                 ''|----------------|-----|-----|-----|'',
                 ''| 3/7 | 1,234,567 |  |  |'',
                 ''| 5/2 | 100,000 | 120,000 |  |'', rule_line]
      @ join nl [heading_line ''facetAddresses()'', ''| Selectors/Facets | ImplA | ImplB | ImplC |'',
                 ''|----------------|-----|-----|-----|'',
                 ''| 10/1 |  | 999 |  |'', rule_line]"

section \<open>Properties\<close>

subsection \<open>Joining and the ingest loop\<close>

lemma join_Cons: "join sep (x # xs) = (if xs = [] then x else x @ sep @ join sep xs)"
  by (cases xs) simp_all

lemma sublist_join: "x \<in> set xs \<Longrightarrow> sublist x (join sep xs)"
proof (induction xs)
  case Nil
  then show ?case by simp
next
  case (Cons y ys)
  show ?case
  proof (cases "x = y")
    case True
    then show ?thesis by (simp add: join_Cons)
  next
    case False
    with Cons have "sublist x (join sep ys)" and "ys \<noteq> []" by auto
    then obtain ps ss where "join sep ys = ps @ x @ ss" by (auto simp: sublist_def)
    then have "join sep (y # ys) = (y @ sep @ ps) @ x @ ss" using \<open>ys \<noteq> []\<close> by (simp add: join_Cons)
    then show ?thesis unfolding sublist_def by blast
  qed
qed

lemma ingest_append:
  "ingest (xs @ ys) d = (case ingest xs d of Inl e \<Rightarrow> Inl e | Inr d' \<Rightarrow> ingest ys d')"
  by (induction xs arbitrary: d) (simp_all split: sum.splits)

lemma ingest_reads: "map read_row rs = map Inr ms \<Longrightarrow> ingest rs d = Inr (fold store ms d)"
proof (induction rs arbitrary: ms d)
  case Nil
  then show ?case by simp
next
  case (Cons r rs)
  then obtain m ms' where ms: "ms = m # ms'" and r: "read_row r = Inr m"
    and rest: "map read_row rs = map Inr ms'"
    by (cases ms) auto
  from Cons.IH [OF rest] show ?case by (simp add: ms r)
qed

lemma ingest_InrD: "ingest rs d = Inr d' \<Longrightarrow> \<exists>ms. map read_row rs = map Inr ms \<and> d' = fold store ms d"
proof (induction rs arbitrary: d)
  case Nil
  then show ?case by simp
next
  case (Cons r rs)
  then obtain m where r: "read_row r = Inr m" and rest: "ingest rs (store m d) = Inr d'"
    by (cases "read_row r") auto
  from Cons.IH [OF rest] obtain ms where "map read_row rs = map Inr ms" "d' = fold store ms (store m d)"
    by blast
  then have "map read_row (r # rs) = map Inr (m # ms) \<and> d' = fold store (m # ms) d"
    by (simp add: r)
  then show ?case by blast
qed

lemma get_default_Nil [simp]: "get_default [] k = []"
  by (simp add: get_default_def)

lemma get_default_update:
  "get_default (AList.update k v al) k' = (if k' = k then v else get_default al k')"
  by (simp add: get_default_def update_conv')

lemma get_default_store:
  "get_default (store m d) f =
     (if f = func m
      then AList.update (selectors m, facets m)
             (AList.update (impl m) (gas m) (get_default (get_default d (func m)) (selectors m, facets m)))
             (get_default d (func m))
      else get_default d f)"
  by (simp add: store_def Let_def get_default_update)

lemma lookup_store:
  "lookup (store m d) f k i = (if key_of m = (f, k, i) then Some (gas m) else lookup d f k i)"
  by (auto simp: lookup_def get_default_store get_default_update update_conv' key_of_def)

lemma latest_Nil [simp]: "latest [] key = None"
  by (simp add: latest_def)

lemma latest_snoc:
  "latest (ms @ [m]) key = (if key_of m = key then Some (gas m) else latest ms key)"
  by (simp add: latest_def Let_def)

lemma lookup_fold_store:
  "lookup (fold store ms d) f k i =
     (case latest ms (f, k, i) of None \<Rightarrow> lookup d f k i | Some g \<Rightarrow> Some g)"
proof (induction ms rule: rev_induct)
  case Nil
  then show ?case by simp
next
  case (snoc m ms)
  then show ?case
    by (simp add: lookup_store latest_snoc)
qed

lemma lookup_Nil [simp]: "lookup [] f k i = None"
  by (simp add: lookup_def)

lemma lookup_ingested: "lookup (fold store ms []) f k i = latest ms (f, k, i)"
  by (simp add: lookup_fold_store split: option.splits)

lemma latest_None: "latest ms key = None \<longleftrightarrow> (\<forall>m\<in>set ms. key_of m \<noteq> key)"
  by (simp add: latest_def Let_def filter_empty_conv)

lemma latest_last:
  assumes "\<forall>m\<in>set ms'. key_of m \<noteq> key_of m0"
  shows "latest (ms @ m0 # ms') (key_of m0) = Some (gas m0)"
proof -
  have "filter (\<lambda>m. key_of m = key_of m0) ms' = []"
    using assms by (simp add: filter_empty_conv)
  then show ?thesis by (simp add: latest_def Let_def)
qed


subsection \<open>Keys are distinct; the implementations seen; the order of the rows\<close>

lemma distinct_rows_store:
  assumes "\<And>f. distinct (map fst (get_default d f))"
  shows "distinct (map fst (get_default (store m d) f))"
  using assms by (simp add: get_default_store distinct_update)

lemma distinct_rows_fold:
  "(\<And>f. distinct (map fst (get_default d f))) \<Longrightarrow> distinct (map fst (get_default (fold store ms d) f))"
proof (induction ms arbitrary: d f)
  case Nil
  then show ?case by simp
next
  case (Cons m ms)
  show ?case using Cons.IH [of "store m d" f] distinct_rows_store [of d m] Cons.prems by simp
qed

lemma distinct_rows_ingested: "distinct (map fst (get_default (fold store ms []) f))"
  by (rule distinct_rows_fold) simp

lemma distinct_funcs_store: "distinct (map fst d) \<Longrightarrow> distinct (map fst (store m d))"
  by (simp add: store_def Let_def distinct_update)

lemma distinct_funcs_fold: "distinct (map fst d) \<Longrightarrow> distinct (map fst (fold store ms d))"
  by (induction ms arbitrary: d) (simp_all add: distinct_funcs_store)

lemma get_default_member:
  "distinct (map fst al) \<Longrightarrow> (k, v) \<in> set al \<Longrightarrow> get_default al k = v"
  by (simp add: get_default_def)

lemma member_get_default:
  "get_default al k \<noteq> [] \<Longrightarrow> (k, get_default al k) \<in> set al"
  by (auto simp: get_default_def split: option.splits dest: map_of_SomeD)

lemma all_impls_iff:
  assumes "distinct (map fst d)" and "\<And>f. distinct (map fst (get_default d f))"
  shows "i \<in> set (all_impls d) \<longleftrightarrow> (\<exists>f k. lookup d f k i \<noteq> None)"
proof
  assume "i \<in> set (all_impls d)"
  then obtain f rs k im where frs: "(f, rs) \<in> set d" and kim: "(k, im) \<in> set rs" and i: "i \<in> fst ` set im"
    by (fastforce simp: all_impls_def)
  from frs assms(1) have rs: "get_default d f = rs" by (rule get_default_member [rotated])
  with assms(2) [of f] kim have "get_default rs k = im" by (simp add: get_default_member)
  with rs i have "lookup d f k i \<noteq> None" by (simp add: lookup_def map_of_eq_None_iff)
  then show "\<exists>f k. lookup d f k i \<noteq> None" by blast
next
  assume "\<exists>f k. lookup d f k i \<noteq> None"
  then obtain f k where l: "map_of (get_default (get_default d f) k) i \<noteq> None"
    by (auto simp: lookup_def)
  then have ne: "get_default (get_default d f) k \<noteq> []" by auto
  then have "get_default d f \<noteq> []" by auto
  then have 1: "(f, get_default d f) \<in> set d" by (rule member_get_default)
  from ne have 2: "(k, get_default (get_default d f) k) \<in> set (get_default d f)" by (rule member_get_default)
  from l have 3: "i \<in> fst ` set (get_default (get_default d f) k)" by (simp add: map_of_eq_None_iff)
  from 1 2 3 show "i \<in> set (all_impls d)"
    by (force simp: all_impls_def)
qed

lemma all_impls_ingested: "set (all_impls (fold store ms [])) = impl ` set ms"
proof -
  have "i \<in> set (all_impls (fold store ms [])) \<longleftrightarrow> i \<in> impl ` set ms" for i
  proof -
    have "i \<in> set (all_impls (fold store ms [])) \<longleftrightarrow> (\<exists>f k. latest ms (f, k, i) \<noteq> None)"
      by (subst all_impls_iff) (simp_all add: distinct_funcs_fold distinct_rows_ingested lookup_ingested)
    also have "\<dots> \<longleftrightarrow> i \<in> impl ` set ms"
      by (auto simp: latest_None key_of_def)
    finally show ?thesis .
  qed
  then show ?thesis by blast
qed

lemma set_sorted_items [simp]: "set (sorted_items rs) = set rs"
  by (simp add: sorted_items_def)

lemma length_sorted_items [simp]: "length (sorted_items rs) = length rs"
  by (simp add: sorted_items_def)

lemma sorted_items_strict:
  assumes "distinct (map fst rs)"
  shows "sorted_wrt (<) (map fst (sorted_items rs))"
proof -
  have "distinct (map fst (sort_key fst rs))"
    using assms by (simp add: distinct_map)
  moreover have "sorted (map fst (sort_key fst rs))" by (rule sorted_sort_key)
  ultimately show ?thesis by (simp add: strict_sorted_iff sorted_items_def)
qed


subsection \<open>Rendering succeeds exactly when no implementation is \<open>None\<close>\<close>

lemma str_items_map_Some [simp]: "str_items (map Some ns) = Inr ns"
  by (induction ns) simp_all

lemma str_items_None: "None \<in> set xs \<Longrightarrow> str_items xs = Inl TypeError"
  by (induction xs rule: str_items.induct) (auto split: sum.splits)

lemma map_Some_the: "None \<notin> set xs \<Longrightarrow> map Some (map the xs) = xs"
  by (induction xs) auto

lemma format_table_names:
  "format_table f rs (map Some names) = Inr (join nl (table_md f rs names))"
  by (simp add: format_table_def)

lemma report_None: "None \<in> set e \<Longrightarrow> report e d = Inl TypeError"
  by (simp add: report_def py_sorted_def format_table_def str_items_None)

lemma report_names:
  assumes "sort e = map Some names"
  shows "report e d = Inr (document d names)"
proof -
  have "None \<notin> set (sort e)" using assms by auto
  then have "None \<notin> set e" by simp
  then show ?thesis
    by (simp add: report_def py_sorted_def assms format_table_names document_def)
qed

lemma sorted_names:
  assumes "sort e = map Some names" and "distinct e"
  shows "sorted_wrt (<) names" and "Some ` set names = set e"
proof -
  have "sorted (map Some names)" using assms(1) [symmetric] by simp
  then have "sorted names" by (simp add: sorted_map)
  moreover have "distinct (map Some names)" using assms by (metis distinct_sort)
  then have "distinct names" by (simp add: distinct_map)
  ultimately show "sorted_wrt (<) names" by (simp add: strict_sorted_iff)
  have "set (map Some names) = set e" using assms(1) [symmetric] by simp
  then show "Some ` set names = set e" by simp
qed

lemma report_cases:
  "(None \<in> set e \<and> report e d = Inl TypeError) \<or>
   (\<exists>names. sort e = map Some names \<and> report e d = Inr (document d names))"
proof (cases "None \<in> set e")
  case True
  then show ?thesis by (simp add: report_None)
next
  case False
  then have "None \<notin> set (sort e)" by simp
  then have "sort e = map Some (map the (sort e))" by (rule map_Some_the [symmetric])
  then show ?thesis using report_names by blast
qed

lemma py_sorted_set:
  assumes "distinct e1" "distinct e2" "set e1 = set e2"
  shows "py_sorted e1 = py_sorted e2"
proof -
  have "length e1 = length e2" using assms by (metis distinct_card)
  moreover have "sort e1 = sort e2"
    using assms by (metis sorted_list_of_set_sort_remdups distinct_remdups_id)
  ultimately show ?thesis using assms(3) by (simp add: py_sorted_def)
qed

lemma run_success:
  assumes "run csv = Inr doc"
  shows "\<exists>ms names. map read_row (dict_reader csv) = map Inr ms
           \<and> ingest (dict_reader csv) [] = Inr (fold store ms [])
           \<and> py_sorted (remdups (all_impls (fold store ms []))) = Inr (map Some names)
           \<and> Some ` set names = impl ` set ms
           \<and> sorted_wrt (<) names
           \<and> doc = document (fold store ms []) names"
proof -
  from assms obtain d where d: "ingest (dict_reader csv) [] = Inr d"
    and rep: "report (remdups (all_impls d)) d = Inr doc"
    by (auto simp: run_def split: sum.splits)
  from ingest_InrD [OF d] obtain ms where ms: "map read_row (dict_reader csv) = map Inr ms"
    and dms: "d = fold store ms []" by blast
  let ?e = "remdups (all_impls d)"
  from report_cases [of ?e d] rep obtain names where n: "sort ?e = map Some names"
    and doc: "doc = document d names" by auto
  have "None \<notin> set ?e" using n by (metis ex_map_conv option.simps(3) set_sort)
  then have ps: "py_sorted ?e = Inr (map Some names)" by (simp add: py_sorted_def n)
  have "Some ` set names = set ?e" and sw: "sorted_wrt (<) names"
    using sorted_names [OF n] by simp_all
  then have "Some ` set names = impl ` set ms" by (simp add: dms all_impls_ingested)
  with ms d dms ps sw doc show ?thesis by blast
qed


subsection \<open>Numbers as text\<close>

lemma digit_cases: "d < 10 \<Longrightarrow> d \<in> {0, 1, 2, 3, 4, 5, 6, 7, 8, 9::nat}"
  by auto

lemma digit_char_props:
  assumes "d < 10"
  shows "is_digit (digit_char d)" and "digit_val (digit_char d) = d"
    and "\<not> py_isspace (digit_char d)" and "digit_char d \<noteq> CHR '',''"
    and "digit_char d \<noteq> CHR ''-''" and "digit_char d \<noteq> CHR ''+''"
  using digit_cases [OF assms]
  by (auto simp: digit_char_def is_digit_def digit_val_def py_isspace_def)

lemma digits_nonempty [simp]: "digits n \<noteq> []"
  by (subst digits.simps) simp

lemma digits_all:
  "c \<in> set (digits n) \<Longrightarrow> is_digit c \<and> c \<noteq> CHR '','' \<and> \<not> py_isspace c \<and> c \<noteq> CHR ''-'' \<and> c \<noteq> CHR ''+''"
proof (induction n rule: digits.induct)
  case (1 n)
  show ?case
  proof (cases "n < 10")
    case True
    with "1.prems" have "c = digit_char n" by (subst (asm) digits.simps) simp
    with True show ?thesis by (simp add: digit_char_props)
  next
    case False
    with "1.prems" have "c \<in> set (digits (n div 10)) \<or> c = digit_char (n mod 10)"
      by (subst (asm) digits.simps) auto
    then show ?thesis using "1.IH" [OF False] by (auto simp: digit_char_props)
  qed
qed

lemma group3_filter:
  "filter (\<lambda>c. c \<noteq> CHR '','') (group3 xs) = filter (\<lambda>c. c \<noteq> CHR '','') xs"
  by (induction xs rule: group3.induct) simp_all

lemma fmt_comma_plain: "filter (\<lambda>c. c \<noteq> CHR '','') (fmt_comma n) = py_str n"
proof -
  have "filter (\<lambda>c. c \<noteq> CHR '','') (digits (nat \<bar>n\<bar>)) = digits (nat \<bar>n\<bar>)"
    by (rule filter_True) (simp add: digits_all)
  then show ?thesis
    by (simp add: fmt_comma_def py_str_def sign_str_def group3_filter flip: rev_filter)
qed

lemma group3_nth:
  assumes "CHR '','' \<notin> set xs" and "k < length (group3 xs)"
  shows "(group3 xs ! k = CHR '','') \<longleftrightarrow> (k mod 4 = 3)"
  using assms
proof (induction xs arbitrary: k rule: group3.induct)
  case (1 a b c d cs)
  show ?case
  proof (cases "k < 4")
    case True
    then have "k = 0 \<or> k = 1 \<or> k = 2 \<or> k = 3" by arith
    then show ?thesis using "1.prems"(1) by auto
  next
    case False
    then obtain j where k: "k = j + 4" by (metis add.commute le_Suc_ex not_less)
    then have "group3 (a # b # c # d # cs) ! k = group3 (d # cs) ! j"
      by (simp add: numeral_eq_Suc)
    moreover have "j < length (group3 (d # cs))" using "1.prems"(2) k by simp
    moreover have "CHR '','' \<notin> set (d # cs)" using "1.prems"(1) by simp
    ultimately show ?thesis using "1.IH" [of j] k by (simp add: mod_add_self2)
  qed
qed (auto simp: less_Suc_eq)

lemma group3_Nil_iff [simp]: "group3 xs = [] \<longleftrightarrow> xs = []"
  by (induction xs rule: group3.induct) simp_all

lemma group3_last: "xs \<noteq> [] \<Longrightarrow> last (group3 xs) = last xs"
  by (induction xs rule: group3.induct) simp_all

lemma digits_from_digits:
  "ds \<noteq> [] \<Longrightarrow> \<forall>c\<in>set ds. is_digit c \<Longrightarrow>
     digits_from acc ds = Some (foldl (\<lambda>a c. a * 10 + digit_val c) acc ds)"
  by (induction acc ds rule: digits_from.induct) simp_all

lemma foldl_digits:
  "foldl (\<lambda>a c. a * 10 + digit_val c) acc (digits n) = acc * 10 ^ length (digits n) + n"
proof (induction n arbitrary: acc rule: digits.induct)
  case (1 n)
  show ?case
  proof (cases "n < 10")
    case True
    then show ?thesis by (subst (1 2) digits.simps) (simp add: digit_char_props)
  next
    case False
    have d: "digits n = digits (n div 10) @ [digit_char (n mod 10)]"
      using False by (subst digits.simps) simp
    have "foldl (\<lambda>a c. a * 10 + digit_val c) acc (digits n)
        = (acc * 10 ^ length (digits (n div 10)) + n div 10) * 10 + n mod 10"
      by (simp add: d "1.IH" [OF False] digit_char_props)
    also have "\<dots> = acc * 10 ^ length (digits n) + n"
      by (simp add: d algebra_simps)
    finally show ?thesis .
  qed
qed

lemma digits_value_digits: "digits_value (digits n) = Some n"
proof -
  obtain c cs where ccs: "digits n = c # cs" by (cases "digits n") simp_all
  then have "is_digit c" using digits_all [of c n] by simp
  moreover have "digits_from 0 (digits n) = Some n"
    using digits_from_digits [of "digits n" 0] foldl_digits [of 0 n] by (simp add: digits_all)
  ultimately show ?thesis by (simp add: digits_value_def ccs)
qed

lemma strip_id:
  assumes "s \<noteq> []" and "\<not> py_isspace (hd s)" and "\<not> py_isspace (last s)"
  shows "strip s = s"
proof -
  have 1: "dropWhile py_isspace s = s" using assms by (cases s) simp_all
  have "rev s \<noteq> []" and "\<not> py_isspace (hd (rev s))" using assms by (simp_all add: hd_rev)
  then have "dropWhile py_isspace (rev s) = rev s" by (cases "rev s") simp_all
  with 1 show ?thesis by (simp add: strip_def)
qed

lemma hd_digits: "is_digit (hd (digits n)) \<and> \<not> py_isspace (hd (digits n)) \<and> hd (digits n) \<noteq> CHR ''-'' \<and> hd (digits n) \<noteq> CHR ''+''"
  using digits_all [of "hd (digits n)" n] by simp

lemma last_digits: "\<not> py_isspace (last (digits n))"
  using digits_all [of "last (digits n)" n] by simp

lemma py_int_py_str: "py_int (py_str n) = Inr n"
proof (cases "n < 0")
  case True
  have s: "strip (py_str n) = CHR ''-'' # digits (nat \<bar>n\<bar>)"
    using True last_digits [of "nat \<bar>n\<bar>"]
    by (simp add: py_str_def sign_str_def strip_id py_isspace_def)
  show ?thesis using True by (simp add: py_int_def s digits_value_digits)
next
  case False
  have s: "strip (py_str n) = digits (nat \<bar>n\<bar>)"
    using False last_digits [of "nat \<bar>n\<bar>"] hd_digits [of "nat \<bar>n\<bar>"]
    by (simp add: py_str_def sign_str_def strip_id)
  show ?thesis using False hd_digits [of "nat \<bar>n\<bar>"]
    by (simp add: py_int_def s digits_value_digits Let_def)
qed


subsection \<open>The document of a successful run\<close>

lemma set_columns: "set (columns ms) = {i. Some i \<in> impl ` set ms}"
  by (auto simp: columns_def split: option.splits)

lemma columns_strict: "sorted_wrt (<) (columns ms)"
  by (simp add: columns_def strict_sorted_iff)

lemma names_columns:
  assumes "sorted_wrt (<) names" and "Some ` set names = impl ` set ms"
  shows "names = columns ms"
proof (rule sorted_distinct_set_unique)
  show "sorted names" "distinct names" using assms(1) by (simp_all add: strict_sorted_iff)
  show "sorted (columns ms)" "distinct (columns ms)"
    using columns_strict [of ms] by (simp_all add: strict_sorted_iff)
  show "set names = set (columns ms)"
    using assms(2) by (auto simp: set_columns)
qed

lemma run_document:
  assumes "run csv = Inr doc" and "map read_row (dict_reader csv) = map Inr ms"
  shows "ingest (dict_reader csv) [] = Inr (fold store ms [])"
    and "py_sorted (remdups (all_impls (fold store ms []))) = Inr (map Some (columns ms))"
    and "Some ` set (columns ms) = impl ` set ms"
    and "doc = document (fold store ms []) (columns ms)"
proof -
  from run_success [OF assms(1)] obtain ms' names where
    ms': "map read_row (dict_reader csv) = map Inr ms'"
    and ing: "ingest (dict_reader csv) [] = Inr (fold store ms' [])"
    and ps: "py_sorted (remdups (all_impls (fold store ms' []))) = Inr (map Some names)"
    and sn: "Some ` set names = impl ` set ms'"
    and sw: "sorted_wrt (<) names"
    and doc: "doc = document (fold store ms' []) names"
    by blast
  from ms' assms(2) have "map Inr ms' = (map Inr ms :: (error + measurement) list)" by simp
  then have eq: "ms' = ms" by (simp add: inj_map_eq_map)
  from sw sn have n: "names = columns ms'" by (rule names_columns)
  show "ingest (dict_reader csv) [] = Inr (fold store ms [])" using ing eq by simp
  show "py_sorted (remdups (all_impls (fold store ms []))) = Inr (map Some (columns ms))"
    using ps eq n by simp
  show "Some ` set (columns ms) = impl ` set ms" using sn eq n by simp
  show "doc = document (fold store ms []) (columns ms)" using doc eq n by simp
qed

lemma rows_other_func:
  "\<forall>m\<in>set ms. func m \<noteq> f \<Longrightarrow> get_default (fold store ms d) f = get_default d f"
  by (induction ms arbitrary: d) (auto simp: get_default_store)


subsection \<open>Evaluation on concrete inputs\<close>

lemmas int_eval = py_int_arg_def py_int_def strip_def py_isspace_def digits_value_def is_digit_def digit_val_def
lemmas row_eval = dict_row_def getitem_def read_row_def
lemmas store_eval = store_def get_default_def
lemmas fmt_eval = fmt_comma_def py_str_def sign_str_def digits.simps digit_char_def
lemmas table_eval = table_md_def sorted_items_def data_line_def row_cells_def cell_def header_line_def separator_line_def
lemmas report_eval = all_impls_def py_sorted_def report_def format_table_def get_default_def

lemma example_reads:
  "map read_row (dict_reader [[''Implementation'', ''Function'', ''Facets'', ''Selectors'', ''GasUsed''],
     [''ImplA'', ''facets()'', ''2'', ''5'', ''100000''],
     [''ImplB'', ''facets()'', ''2'', ''5'', ''120000'']])
   = map Inr [\<lparr>impl = Some ''ImplA'', func = Some ''facets()'', facets = 2, selectors = 5, gas = 100000\<rparr>,
              \<lparr>impl = Some ''ImplB'', func = Some ''facets()'', facets = 2, selectors = 5, gas = 120000\<rparr>]"
  by (simp add: int_eval row_eval)

lemma example_ingest:
  "ingest (dict_reader [[''Implementation'', ''Function'', ''Facets'', ''Selectors'', ''GasUsed''],
     [''ImplA'', ''facets()'', ''2'', ''5'', ''100000''],
     [''ImplB'', ''facets()'', ''2'', ''5'', ''120000'']]) []
   = Inr [(Some ''facets()'', [((5, 2), [(Some ''ImplA'', 100000), (Some ''ImplB'', 120000)])])]"
  by (simp add: int_eval row_eval store_eval)

lemma example_run:
  "run [[''Implementation'', ''Function'', ''Facets'', ''Selectors'', ''GasUsed''],
     [''ImplA'', ''facets()'', ''2'', ''5'', ''100000''],
     [''ImplB'', ''facets()'', ''2'', ''5'', ''120000'']]
  = Inr (preamble
      @ join nl [heading_line ''facets()'', ''| Selectors/Facets | ImplA | ImplB |'',
                 ''|----------------|-----|-----|'', ''| 5/2 | 100,000 | 120,000 |'', rule_line]
      @ join nl [heading_line ''facetAddresses()'', ''| Selectors/Facets | ImplA | ImplB |'',
                 ''|----------------|-----|-----|'', rule_line])"
  unfolding run_def example_ingest
  by (simp add: report_eval table_eval fmt_eval)

lemma sample_reads:
  "map read_row (dict_reader sample_csv)
   = map Inr sample_records"
  by (simp add: sample_csv_def sample_records_def int_eval row_eval)

lemma sample_store:
  "fold store sample_records []
   = sample_data"
  by (simp add: sample_records_def sample_data_def store_eval)

lemma sample_ingest:
  "ingest (dict_reader sample_csv) []
   = Inr sample_data"
  using ingest_reads [OF sample_reads, of "[]"] unfolding sample_store .

lemma sample_run: "run sample_csv = Inr sample_document"
  unfolding run_def sample_ingest
  by (simp add: sample_data_def sample_document_def report_eval table_eval fmt_eval)

lemma sample_columns:
  "columns sample_records
   = [''ImplA'', ''ImplB'', ''ImplC'']"
  by (simp add: sample_records_def columns_def)



subsection \<open>Rows of the aggregation in the table\<close>

lemma data_line_member:
  "kv \<in> set rs \<Longrightarrow> data_line names kv \<in> set (table_md f rs names)"
  by (simp add: table_md_def)

lemma stored_row:
  assumes "m \<in> set ms"
  shows "((selectors m, facets m), get_default (get_default (fold store ms []) (func m)) (selectors m, facets m))
           \<in> set (get_default (fold store ms []) (func m))"
proof -
  have "lookup (fold store ms []) (func m) (selectors m, facets m) (impl m) \<noteq> None"
    using assms by (auto simp: lookup_ingested latest_None key_of_def)
  then have "get_default (get_default (fold store ms []) (func m)) (selectors m, facets m) \<noteq> []"
    by (auto simp: lookup_def)
  then show ?thesis by (rule member_get_default)
qed

subsection \<open>Lines of a table in the document; the grouping of digits\<close>

lemma sublist_document:
  assumes "line \<in> set (table_md f (get_default d (Some f)) names)"
    and "f = ''facets()'' \<or> f = ''facetAddresses()''"
  shows "sublist line (document d names)"
proof -
  from sublist_join [OF assms(1), of nl] obtain ps ss
    where j: "join nl (table_md f (get_default d (Some f)) names) = ps @ line @ ss"
    by (auto simp: sublist_def)
  from assms(2) show ?thesis
  proof
    assume "f = ''facets()''"
    with j have "document d names
      = (preamble @ ps) @ line @ (ss @ join nl (table_md ''facetAddresses()''
           (get_default d (Some ''facetAddresses()'')) names))"
      by (simp add: document_def)
    then show ?thesis unfolding sublist_def by blast
  next
    assume "f = ''facetAddresses()''"
    with j have "document d names
      = (preamble @ join nl (table_md ''facets()'' (get_default d (Some ''facets()'')) names) @ ps)
          @ line @ ss"
      by (simp add: document_def)
    then show ?thesis unfolding sublist_def by blast
  qed
qed

lemma latest_Some:
  "m \<in> set ms \<Longrightarrow> \<exists>m'\<in>set ms. key_of m' = key_of m \<and> latest ms (key_of m) = Some (gas m')"
proof -
  assume "m \<in> set ms"
  then have ne: "filter (\<lambda>x. key_of x = key_of m) ms \<noteq> []"
    by (auto simp: filter_empty_conv)
  then have "last (filter (\<lambda>x. key_of x = key_of m) ms) \<in> set (filter (\<lambda>x. key_of x = key_of m) ms)"
    by (rule last_in_set)
  then have "last (filter (\<lambda>x. key_of x = key_of m) ms) \<in> set ms"
    and "key_of (last (filter (\<lambda>x. key_of x = key_of m) ms)) = key_of m"
    by simp_all
  moreover have "latest ms (key_of m) = Some (gas (last (filter (\<lambda>x. key_of x = key_of m) ms)))"
    using ne by (simp add: latest_def Let_def)
  ultimately show ?thesis by blast
qed

lemma fmt_comma_positions:
  assumes "k < length (fmt_comma n) - length (sign_str n)"
  shows "(rev (fmt_comma n) ! k = CHR '','') = (k mod 4 = 3)"
proof -
  let ?g = "group3 (rev (digits (nat \<bar>n\<bar>)))"
  have k: "k < length ?g" using assms by (simp add: fmt_comma_def)
  have "CHR '','' \<notin> set (rev (digits (nat \<bar>n\<bar>)))"
    using digits_all [of "CHR '',''" "nat \<bar>n\<bar>"] by auto
  then have "(?g ! k = CHR '','') = (k mod 4 = 3)" using k by (rule group3_nth)
  moreover have "rev (fmt_comma n) ! k = ?g ! k"
    using k by (simp add: fmt_comma_def nth_append)
  ultimately show ?thesis by simp
qed

lemma fmt_comma_leading:
  "drop (length (sign_str n)) (fmt_comma n) \<noteq> []
   \<and> hd (drop (length (sign_str n)) (fmt_comma n)) \<noteq> CHR '',''"
proof -
  let ?ds = "digits (nat \<bar>n\<bar>)"
  have body: "drop (length (sign_str n)) (fmt_comma n) = rev (group3 (rev ?ds))"
    by (simp add: fmt_comma_def)
  have "hd (rev (group3 (rev ?ds))) = last (group3 (rev ?ds))"
    by (simp add: hd_rev)
  also have "\<dots> = last (rev ?ds)" by (simp add: group3_last)
  also have "\<dots> = hd ?ds" by (simp add: last_rev)
  finally have "hd (rev (group3 (rev ?ds))) = hd ?ds" .
  moreover have "hd ?ds \<noteq> CHR '',''"
    using digits_all [of "hd ?ds" "nat \<bar>n\<bar>"] by simp
  ultimately show ?thesis by (simp add: body)
qed

subsection \<open>What the report depends on\<close>

lemma rows_filter:
  "get_default d f = get_default d' f \<Longrightarrow>
     get_default (fold store ms d) f = get_default (fold store (filter (\<lambda>m. func m = f) ms) d') f"
proof (induction ms arbitrary: d d')
  case Nil
  then show ?case by simp
next
  case (Cons m ms)
  show ?case
  proof (cases "func m = f")
    case True
    have "get_default (store m d) f = get_default (store m d') f"
      using Cons.prems True by (simp add: get_default_store)
    from Cons.IH [OF this] show ?thesis using True by simp
  next
    case False
    have "get_default (store m d) f = get_default d' f"
      using Cons.prems False by (auto simp: get_default_store)
    from Cons.IH [OF this] show ?thesis using False by simp
  qed
qed

lemma rows_recognised:
  assumes "filter recognised ms1 = filter recognised ms2"
    and "f = ''facets()'' \<or> f = ''facetAddresses()''"
  shows "get_default (fold store ms1 []) (Some f) = get_default (fold store ms2 []) (Some f)"
proof -
  have "filter (\<lambda>m. func m = Some f) ms = filter (\<lambda>m. func m = Some f) (filter recognised ms)" for ms
    using assms(2) by (auto simp: recognised_def intro!: filter_cong)
  then have "filter (\<lambda>m. func m = Some f) ms1 = filter (\<lambda>m. func m = Some f) ms2"
    using assms(1) by metis
  then show ?thesis
    using rows_filter [of "[]" "Some f" "[]" ms1] rows_filter [of "[]" "Some f" "[]" ms2] by simp
qed

lemma report_cong:
  assumes "set (all_impls d1) = set (all_impls d2)"
    and "get_default d1 (Some ''facets()'') = get_default d2 (Some ''facets()'')"
    and "get_default d1 (Some ''facetAddresses()'') = get_default d2 (Some ''facetAddresses()'')"
  shows "report (remdups (all_impls d1)) d1 = report (remdups (all_impls d2)) d2"
proof -
  have "py_sorted (remdups (all_impls d1)) = py_sorted (remdups (all_impls d2))"
    by (rule py_sorted_set) (simp_all add: assms(1))
  then show ?thesis unfolding report_def assms(2) assms(3) by simp
qed

subsection \<open>Rows that end the run\<close>

lemma read_row_bad: "bad_row r \<longleftrightarrow> (\<exists>e. read_row r = Inl e)"
  by (auto simp: bad_row_def field_unparsable_def read_row_def getitem_def
      split: option.splits sum.splits)

lemma fold_upd_absent:
  "k \<notin> fst ` set kvs \<Longrightarrow> fold (\<lambda>(k, v) m. m(k \<mapsto> Some v)) kvs m0 k = m0 k"
  by (induction kvs arbitrary: m0) auto

lemma fold_none_absent:
  "k \<notin> set ks \<Longrightarrow> fold (\<lambda>k m. m(k \<mapsto> None)) ks m0 k = m0 k"
  by (induction ks arbitrary: m0) auto

lemma dict_row_absent:
  assumes "k \<notin> set h"
  shows "dict_row h r k = None"
proof -
  have 1: "k \<notin> fst ` set (zip h r)" using assms by (auto dest: set_zip_leftD)
  have 2: "k \<notin> set (drop (length r) h)" using assms by (auto dest: in_set_dropD)
  show ?thesis by (simp add: dict_row_def Let_def fold_none_absent [OF 2] fold_upd_absent [OF 1])
qed

lemma ingest_good:
  "\<forall>x\<in>set rs. \<not> bad_row x \<Longrightarrow> \<exists>d'. ingest rs d = Inr d'"
proof (induction rs arbitrary: d)
  case Nil
  then show ?case by simp
next
  case (Cons r rs)
  then have "\<not> bad_row r" by simp
  then obtain m where "read_row r = Inr m"
    unfolding read_row_bad by (cases "read_row r") auto
  then show ?case using Cons by simp
qed

lemma missing_field_bad:
  assumes "\<not> set required_fields \<subseteq> set h"
  shows "bad_row (dict_row h r)"
proof -
  from assms obtain k where k: "k \<in> set required_fields" "k \<notin> set h" by auto
  then have "dict_row h r k = None" by (simp add: dict_row_absent)
  with k(1) show ?thesis
    by (auto simp: required_fields_def bad_row_def field_unparsable_def)
qed

section \<open>The claims\<close>

subsection \<open>C4: the column set and blank cells\<close>

text \<open>
  C4: in a successful run both tables are rendered with the same columns, the distinct
  implementation names of all records, those of functions that are not rendered included.
  Every table has the header row over these columns and one data row for each key of its
  function, none dropped; every data row has one cell for each column after the key cell;
  and where no record has the key (function, selectors, facets) with the implementation of
  a column, the cell is the empty text.
\<close>

theorem C4_columns_and_blank_cells:
  assumes "run csv = Inr doc" and "map read_row (dict_reader csv) = map Inr ms"
  shows "doc = preamble
           @ join nl (table_md ''facets()'' (get_default (fold store ms []) (Some ''facets()'')) (columns ms))
           @ join nl (table_md ''facetAddresses()''
                        (get_default (fold store ms []) (Some ''facetAddresses()'')) (columns ms))
     \<and> Some ` set (columns ms) = impl ` set ms
     \<and> distinct (columns ms)
     \<and> table_md f rs (columns ms) ! 1 = header_line (columns ms)
     \<and> header_line (columns ms) = ''| Selectors/Facets | '' @ join '' | '' (columns ms) @ '' |''
     \<and> length (table_md f rs (columns ms)) = length rs + 4
     \<and> (\<forall>kv\<in>set rs. data_line (columns ms) kv \<in> set (table_md f rs (columns ms)))
     \<and> length (row_cells (columns ms) (k, im)) = Suc (length (columns ms))
     \<and> (\<forall>j<length (columns ms). row_cells (columns ms) (k, im) ! Suc j = cell im (columns ms ! j))
     \<and> (\<forall>i. (\<forall>m\<in>set ms. key_of m \<noteq> (Some f, k, Some i))
            \<longrightarrow> cell (get_default (get_default (fold store ms []) (Some f)) k) i = [])"
proof -
  have 1: "doc = document (fold store ms []) (columns ms)"
    using run_document(4) [OF assms] .
  have 2: "Some ` set (columns ms) = impl ` set ms"
    using run_document(3) [OF assms] .
  have 3: "distinct (columns ms)"
    using columns_strict [of ms] by (simp add: strict_sorted_iff)
  have 4: "cell (get_default (get_default (fold store ms []) (Some f)) k) i = []"
    if "\<forall>m\<in>set ms. key_of m \<noteq> (Some f, k, Some i)" for i
  proof -
    have "latest ms (Some f, k, Some i) = None" using that by (simp add: latest_None)
    then have "lookup (fold store ms []) (Some f) k (Some i) = None"
      by (simp only: lookup_ingested)
    then show ?thesis by (simp add: cell_def lookup_def)
  qed
  show ?thesis
    using 1 2 3 4 by (simp add: document_def table_md_def header_line_def row_cells_def)
qed

theorem C4_columns_and_blank_cells_witness:
  "columns sample_records = [''ImplA'', ''ImplB'', ''ImplC'']
   \<and> Some ` set (columns sample_records) = impl ` set sample_records
   \<and> cell (get_default (get_default (fold store sample_records []) (Some ''facets()'')) (3, 7)) ''ImplB'' = []
   \<and> length (row_cells (columns sample_records) ((3, 7), [(Some ''ImplA'', 1234567)])) = 4"
proof -
  note w = C4_columns_and_blank_cells [OF sample_run sample_reads,
      of "''facets()''" "[]" "(3, 7)" "[(Some ''ImplA'', 1234567)]"]
  have 1: "Some ` set (columns sample_records) = impl ` set sample_records"
    using w by blast
  have h: "\<forall>m\<in>set sample_records. key_of m \<noteq> (Some ''facets()'', (3, 7), Some ''ImplB'')"
    by (simp add: sample_records_def key_of_def)
  have 2: "cell (get_default (get_default (fold store sample_records []) (Some ''facets()'')) (3, 7)) ''ImplB'' = []"
    using w h by blast
  have 3: "length (row_cells (columns sample_records) ((3, 7), [(Some ''ImplA'', 1234567)]))
      = Suc (length (columns sample_records))"
    using w by blast
  from 1 2 3 sample_columns show ?thesis by simp
qed

subsection \<open>C5: records of other functions\<close>

text \<open>
  C5 as stated: a record whose function is neither \<open>facets()\<close> nor \<open>facetAddresses()\<close>
  contributes nothing to either rendered table. It does: its implementation is a column of
  both tables. The report for the header and one such record differs from the report for
  the header alone.
\<close>

theorem C5_counterexample:
  "run [[''Implementation'', ''Function'', ''Facets'', ''Selectors'', ''GasUsed''],
        [''ImplX'', ''unknownFn()'', ''1'', ''1'', ''5'']]
   \<noteq> run [[''Implementation'', ''Function'', ''Facets'', ''Selectors'', ''GasUsed'']]"
proof -
  have i: "ingest (dict_reader [[''Implementation'', ''Function'', ''Facets'', ''Selectors'', ''GasUsed''],
        [''ImplX'', ''unknownFn()'', ''1'', ''1'', ''5'']]) []
      = Inr [(Some ''unknownFn()'', [((1, 1), [(Some ''ImplX'', 5)])])]"
    by (simp add: int_eval row_eval store_eval)
  have 1: "run [[''Implementation'', ''Function'', ''Facets'', ''Selectors'', ''GasUsed''],
        [''ImplX'', ''unknownFn()'', ''1'', ''1'', ''5'']]
      = Inr (preamble
           @ join nl [heading_line ''facets()'', ''| Selectors/Facets | ImplX |'',
                      ''|----------------|-----|'', rule_line]
           @ join nl [heading_line ''facetAddresses()'', ''| Selectors/Facets | ImplX |'',
                      ''|----------------|-----|'', rule_line])"
    unfolding run_def i by (simp add: report_eval table_eval)
  have 2: "run [[''Implementation'', ''Function'', ''Facets'', ''Selectors'', ''GasUsed'']]
      = Inr (preamble
           @ join nl [heading_line ''facets()'', ''| Selectors/Facets |  |'',
                      ''|----------------|'', rule_line]
           @ join nl [heading_line ''facetAddresses()'', ''| Selectors/Facets |  |'',
                      ''|----------------|'', rule_line])"
    by (simp add: run_def report_eval table_eval)
  show ?thesis unfolding 1 2 by (simp add: heading_line_def)
qed

text \<open>
  C5, amended: a record whose function is neither \<open>facets()\<close> nor \<open>facetAddresses()\<close> is
  not an error, and it adds no heading and no data row; the only thing it contributes to
  the report is its implementation name, as a column of both tables. Its function name, its
  key and its measurement have no effect: two inputs whose rows are all read, with the same
  records of the two rendered functions in the same order and the same set of
  implementation names, have the same outcome, however many records of other functions
  either has.
\<close>

theorem C5_unrecognised_function:
  assumes "map read_row (dict_reader csv1) = map Inr ms1"
    and "map read_row (dict_reader csv2) = map Inr ms2"
    and "filter recognised ms1 = filter recognised ms2"
    and "impl ` set ms1 = impl ` set ms2"
  shows "run csv1 = run csv2"
proof -
  have 1: "ingest (dict_reader csv1) [] = Inr (fold store ms1 [])"
    using assms(1) by (rule ingest_reads)
  have 2: "ingest (dict_reader csv2) [] = Inr (fold store ms2 [])"
    using assms(2) by (rule ingest_reads)
  have "report (remdups (all_impls (fold store ms1 []))) (fold store ms1 [])
      = report (remdups (all_impls (fold store ms2 []))) (fold store ms2 [])"
    by (rule report_cong) (simp_all add: all_impls_ingested assms(4) rows_recognised [OF assms(3)])
  then show ?thesis by (simp add: run_def 1 2)
qed


theorem C5_unrecognised_function_witness:
  "run sample_csv
   = run [[''Implementation'', ''Function'', ''Facets'', ''Selectors'', ''GasUsed''],
          [''ImplB'', ''facets()'', ''2'', ''5'', ''120000''],
          [''ImplA'', ''facets()'', ''7'', ''3'', ''1234567''],
          [''ImplA'', ''facets()'', ''2'', ''5'', ''100''],
          [''ImplA'', ''facets()'', ''2'', ''5'', ''100000''],
          [''ImplB'', ''facetAddresses()'', ''1'', ''10'', ''999''],
          [''ImplC'', ''otherFn()'', ''9'', ''9'', ''77'']]"
proof -
  let ?ms2 = "[\<lparr>impl = Some ''ImplB'', func = Some ''facets()'', facets = 2, selectors = 5, gas = 120000\<rparr>,
              \<lparr>impl = Some ''ImplA'', func = Some ''facets()'', facets = 7, selectors = 3, gas = 1234567\<rparr>,
              \<lparr>impl = Some ''ImplA'', func = Some ''facets()'', facets = 2, selectors = 5, gas = 100\<rparr>,
              \<lparr>impl = Some ''ImplA'', func = Some ''facets()'', facets = 2, selectors = 5, gas = 100000\<rparr>,
              \<lparr>impl = Some ''ImplB'', func = Some ''facetAddresses()'', facets = 1, selectors = 10, gas = 999\<rparr>,
              \<lparr>impl = Some ''ImplC'', func = Some ''otherFn()'', facets = 9, selectors = 9, gas = 77\<rparr>]"
  have r2: "map read_row (dict_reader [[''Implementation'', ''Function'', ''Facets'', ''Selectors'', ''GasUsed''],
          [''ImplB'', ''facets()'', ''2'', ''5'', ''120000''],
          [''ImplA'', ''facets()'', ''7'', ''3'', ''1234567''],
          [''ImplA'', ''facets()'', ''2'', ''5'', ''100''],
          [''ImplA'', ''facets()'', ''2'', ''5'', ''100000''],
          [''ImplB'', ''facetAddresses()'', ''1'', ''10'', ''999''],
          [''ImplC'', ''otherFn()'', ''9'', ''9'', ''77'']]) = map Inr ?ms2"
    by (simp add: int_eval row_eval)
  have f: "filter recognised sample_records = filter recognised ?ms2"
    by (simp add: sample_records_def recognised_def)
  have s: "impl ` set sample_records = impl ` set ?ms2"
    by (auto simp: sample_records_def)
  show ?thesis using sample_reads r2 f s by (rule C5_unrecognised_function)
qed

subsection \<open>C6: the two-row example\<close>

text \<open>
  C6 as stated: for the rows (ImplA, facets(), Facets = 2, Selectors = 5, GasUsed = 100000) and
  (ImplB, facets(), Facets = 2, Selectors = 5, GasUsed = 120000) the \<open>facets()\<close> table has
  the one data row \<open>2/5 | 100,000 | 120,000\<close>. The script does not produce that document:
  the first cell is \<open>selectors/facets\<close>, under the label \<open>Selectors/Facets\<close>.
\<close>

theorem C6_counterexample:
  "run [[''Implementation'', ''Function'', ''Facets'', ''Selectors'', ''GasUsed''],
     [''ImplA'', ''facets()'', ''2'', ''5'', ''100000''],
     [''ImplB'', ''facets()'', ''2'', ''5'', ''120000'']]
  \<noteq> Inr (preamble
      @ join nl [heading_line ''facets()'', ''| Selectors/Facets | ImplA | ImplB |'',
                 ''|----------------|-----|-----|'', ''| 2/5 | 100,000 | 120,000 |'', rule_line]
      @ join nl [heading_line ''facetAddresses()'', ''| Selectors/Facets | ImplA | ImplB |'',
                 ''|----------------|-----|-----|'', rule_line])"
  unfolding example_run by (simp add: heading_line_def)

text \<open>
  C6, amended: for these two rows the \<open>facets()\<close> table has exactly one data row, with the
  cells \<open>5/2\<close>, \<open>100,000\<close>, \<open>120,000\<close> under the columns ImplA, ImplB in that order;
  the \<open>facetAddresses()\<close> table has the same columns and no data row.
\<close>

theorem C6_example_table:
  "run [[''Implementation'', ''Function'', ''Facets'', ''Selectors'', ''GasUsed''],
     [''ImplA'', ''facets()'', ''2'', ''5'', ''100000''],
     [''ImplB'', ''facets()'', ''2'', ''5'', ''120000'']]
  = Inr (preamble
      @ join nl [heading_line ''facets()'', ''| Selectors/Facets | ImplA | ImplB |'',
                 ''|----------------|-----|-----|'', ''| 5/2 | 100,000 | 120,000 |'', rule_line]
      @ join nl [heading_line ''facetAddresses()'', ''| Selectors/Facets | ImplA | ImplB |'',
                 ''|----------------|-----|-----|'', rule_line])"
  by (rule example_run)

subsection \<open>C9: a function without records\<close>

text \<open>
  C9: when no record of a successful run names the function \<open>f\<close>, the aggregation has no
  key for \<open>f\<close> and its table is still rendered: the heading, the header row and the
  separator row, then the rule that ends the section, and no data row. The document holds
  that text for \<open>facets()\<close> and for \<open>facetAddresses()\<close>.
\<close>

theorem C9_empty_table:
  assumes "run csv = Inr doc"
    and "map read_row (dict_reader csv) = map Inr ms"
    and "\<forall>m\<in>set ms. func m \<noteq> Some f"
  shows "get_default (fold store ms []) (Some f) = []
    \<and> format_table f (get_default (fold store ms []) (Some f)) (map Some (columns ms))
        = Inr (join nl [heading_line f, header_line (columns ms), separator_line (columns ms), rule_line])
    \<and> doc = document (fold store ms []) (columns ms)"
proof -
  have "get_default (fold store ms []) (Some f) = []"
    using rows_other_func [OF assms(3), of "[]"] by simp
  moreover have "doc = document (fold store ms []) (columns ms)"
    using run_document(4) [OF assms(1,2)] .
  ultimately show ?thesis
    by (simp add: format_table_names table_md_def sorted_items_def)
qed

theorem C9_empty_table_witness:
  "get_default (fold store [\<lparr>impl = Some ''ImplA'', func = Some ''facets()'', facets = 2, selectors = 5, gas = 100000\<rparr>,
              \<lparr>impl = Some ''ImplB'', func = Some ''facets()'', facets = 2, selectors = 5, gas = 120000\<rparr>] [])
      (Some ''facetAddresses()'') = []
   \<and> format_table ''facetAddresses()'' [] [Some ''ImplA'', Some ''ImplB'']
       = Inr (join nl [heading_line ''facetAddresses()'', ''| Selectors/Facets | ImplA | ImplB |'',
                 ''|----------------|-----|-----|'', rule_line])"
proof -
  have c: "columns [\<lparr>impl = Some ''ImplA'', func = Some ''facets()'', facets = 2, selectors = 5, gas = 100000\<rparr>,
              \<lparr>impl = Some ''ImplB'', func = Some ''facets()'', facets = 2, selectors = 5, gas = 120000\<rparr>]
     = [''ImplA'', ''ImplB'']"
    by (simp add: columns_def)
  have h: "\<forall>m\<in>set [\<lparr>impl = Some ''ImplA'', func = Some ''facets()'', facets = 2, selectors = 5, gas = 100000\<rparr>,
              \<lparr>impl = Some ''ImplB'', func = Some ''facets()'', facets = 2, selectors = 5, gas = 120000\<rparr>].
          func m \<noteq> Some ''facetAddresses()''"
    by simp
  note w = C9_empty_table [OF example_run example_reads h]
  have 1: "get_default (fold store [\<lparr>impl = Some ''ImplA'', func = Some ''facets()'', facets = 2, selectors = 5, gas = 100000\<rparr>,
              \<lparr>impl = Some ''ImplB'', func = Some ''facets()'', facets = 2, selectors = 5, gas = 120000\<rparr>] [])
      (Some ''facetAddresses()'') = []"
    using w by (rule conjunct1)
  have 2: "format_table ''facetAddresses()'' [] (map Some [''ImplA'', ''ImplB''])
      = Inr (join nl [heading_line ''facetAddresses()'', header_line [''ImplA'', ''ImplB''],
               separator_line [''ImplA'', ''ImplB''], rule_line])"
    using w [THEN conjunct2, THEN conjunct1] unfolding 1 c .
  have 3: "header_line [''ImplA'', ''ImplB''] = ''| Selectors/Facets | ImplA | ImplB |''"
    by (simp add: header_line_def)
  have 4: "separator_line [''ImplA'', ''ImplB''] = ''|----------------|-----|-----|''"
    by (simp add: separator_line_def)
  show ?thesis using 1 2 unfolding 3 4 by simp
qed


subsection \<open>C1: every record of a rendered function is in its table\<close>

text \<open>
  C1: let the run succeed (a valid input), and let \<open>m\<close> be one of its records, for the
  function \<open>f\<close>, one of \<open>facets()\<close> and \<open>facetAddresses()\<close>. Then the implementation of
  \<open>m\<close> is a column; the table of \<open>f\<close> has the data row of the key (selectors, facets) of
  \<open>m\<close>, and that line is part of the document; the cell of the row under the implementation
  of \<open>m\<close> is the measurement recorded for the tuple (that of the last record with the key of
  \<open>m\<close>, see C3) with thousands separators. The separators are exact: without the commas the
  cell is the decimal text of the measurement; counted from the right every fourth
  character after the sign, and no other, is a comma; the first character after the sign
  is a digit; 1234567 is rendered as 1,234,567.
\<close>

theorem C1_tuple_rendered:
  assumes "run csv = Inr doc" and "map read_row (dict_reader csv) = map Inr ms"
    and "m \<in> set ms" and "func m = Some f"
    and "f = ''facets()'' \<or> f = ''facetAddresses()''"
  shows "\<exists>i g. impl m = Some i \<and> i \<in> set (columns ms)
      \<and> (\<exists>m'\<in>set ms. key_of m' = key_of m \<and> latest ms (key_of m) = Some (gas m') \<and> g = gas m')
      \<and> ((selectors m, facets m),
            get_default (get_default (fold store ms []) (Some f)) (selectors m, facets m))
          \<in> set (get_default (fold store ms []) (Some f))
      \<and> cell (get_default (get_default (fold store ms []) (Some f)) (selectors m, facets m)) i
          = fmt_comma g
      \<and> row_cells (columns ms) ((selectors m, facets m),
            get_default (get_default (fold store ms []) (Some f)) (selectors m, facets m))
          = (py_str (selectors m) @ ''/'' @ py_str (facets m))
              # map (cell (get_default (get_default (fold store ms []) (Some f)) (selectors m, facets m)))
                  (columns ms)
      \<and> data_line (columns ms) ((selectors m, facets m),
            get_default (get_default (fold store ms []) (Some f)) (selectors m, facets m))
          \<in> set (table_md f (get_default (fold store ms []) (Some f)) (columns ms))
      \<and> sublist (data_line (columns ms) ((selectors m, facets m),
            get_default (get_default (fold store ms []) (Some f)) (selectors m, facets m))) doc
      \<and> filter (\<lambda>c. c \<noteq> CHR '','') (fmt_comma g) = py_str g
      \<and> (\<forall>k < length (fmt_comma g) - length (sign_str g).
            (rev (fmt_comma g) ! k = CHR '','') = (k mod 4 = 3))
      \<and> hd (drop (length (sign_str g)) (fmt_comma g)) \<noteq> CHR '',''
      \<and> fmt_comma 1234567 = ''1,234,567''"
proof -
  let ?d = "fold store ms []"
  let ?k = "(selectors m, facets m)"
  let ?im = "get_default (get_default ?d (Some f)) ?k"
  have doc: "doc = document ?d (columns ms)" using run_document(4) [OF assms(1,2)] .
  have "impl m \<in> Some ` set (columns ms)"
    using run_document(3) [OF assms(1,2)] assms(3) by simp
  then obtain i where i: "impl m = Some i" "i \<in> set (columns ms)" by auto
  from latest_Some [OF assms(3)] obtain m' where m': "m' \<in> set ms" "key_of m' = key_of m"
    "latest ms (key_of m) = Some (gas m')" by blast
  have row: "(?k, ?im) \<in> set (get_default ?d (Some f))"
    using stored_row [OF assms(3)] by (simp add: assms(4))
  have "lookup ?d (Some f) ?k (Some i) = latest ms (key_of m)"
    by (simp only: lookup_ingested) (simp add: key_of_def assms(4) i)
  then have c: "cell ?im i = fmt_comma (gas m')"
    by (simp add: cell_def lookup_def m')
  have line: "data_line (columns ms) (?k, ?im) \<in> set (table_md f (get_default ?d (Some f)) (columns ms))"
    using row by (rule data_line_member)
  then have sub: "sublist (data_line (columns ms) (?k, ?im)) doc"
    unfolding doc using assms(5) by (rule sublist_document)
  have rc: "row_cells (columns ms) (?k, ?im)
      = (py_str (selectors m) @ ''/'' @ py_str (facets m)) # map (cell ?im) (columns ms)"
    by (simp add: row_cells_def)
  have ex: "fmt_comma 1234567 = ''1,234,567''" by (simp add: fmt_eval)
  have pos: "\<forall>k < length (fmt_comma (gas m')) - length (sign_str (gas m')).
            (rev (fmt_comma (gas m')) ! k = CHR '','') = (k mod 4 = 3)"
    using fmt_comma_positions by blast
  from i m' row c rc line sub ex pos fmt_comma_plain [of "gas m'"] fmt_comma_leading [of "gas m'"]
  show ?thesis by blast
qed


theorem C1_tuple_rendered_witness:
  "sublist ''| 3/7 | 1,234,567 |  |  |'' sample_document"
proof -
  let ?m = "\<lparr>impl = Some ''ImplA'', func = Some ''facets()'', facets = 7, selectors = 3, gas = 1234567\<rparr>"
  have hm: "?m \<in> set sample_records" by (simp add: sample_records_def)
  have hf: "func ?m = Some ''facets()''" by simp
  have hr: "''facets()'' = ''facets()'' \<or> ''facets()'' = ''facetAddresses()''" by simp
  from C1_tuple_rendered [OF sample_run sample_reads hm hf hr]
  have "sublist (data_line (columns sample_records) ((selectors ?m, facets ?m),
          get_default (get_default (fold store sample_records []) (Some ''facets()''))
            (selectors ?m, facets ?m))) sample_document"
    by blast
  moreover have "data_line (columns sample_records) ((selectors ?m, facets ?m),
          get_default (get_default (fold store sample_records []) (Some ''facets()''))
            (selectors ?m, facets ?m)) = ''| 3/7 | 1,234,567 |  |  |''"
    unfolding sample_store sample_columns
    by (simp add: sample_data_def get_default_def table_eval fmt_eval)
  ultimately show ?thesis by simp
qed

subsection \<open>C2: the order of rows and columns\<close>

text \<open>
  C2: in every rendered table of a successful run the data rows are in strictly ascending
  order of the key (selectors, facets), compared lexicographically (selectors first, then
  facets); the columns are in strictly ascending order of the implementation name; and the
  two tables of the run are rendered with the same column list.
\<close>

theorem C2_ordering:
  assumes "run csv = Inr doc" and "map read_row (dict_reader csv) = map Inr ms"
  shows "doc = preamble
           @ join nl (table_md ''facets()'' (get_default (fold store ms []) (Some ''facets()'')) (columns ms))
           @ join nl (table_md ''facetAddresses()''
                        (get_default (fold store ms []) (Some ''facetAddresses()'')) (columns ms))
     \<and> table_md f rs (columns ms)
         = [heading_line f, header_line (columns ms), separator_line (columns ms)]
             @ map (data_line (columns ms)) (sorted_items rs) @ [rule_line]
     \<and> sorted_wrt (<) (map fst (sorted_items (get_default (fold store ms []) (Some ''facets()''))))
     \<and> sorted_wrt (<) (map fst (sorted_items (get_default (fold store ms []) (Some ''facetAddresses()''))))
     \<and> sorted_wrt (<) (columns ms)
     \<and> (((s1 :: int, f1 :: int) < (s2, f2)) = (s1 < s2 \<or> s1 = s2 \<and> f1 < f2))"
proof -
  have "doc = document (fold store ms []) (columns ms)"
    using run_document(4) [OF assms] .
  moreover have "sorted_wrt (<) (map fst (sorted_items (get_default (fold store ms []) g)))" for g
    by (rule sorted_items_strict) (rule distinct_rows_ingested)
  moreover have "((s1 :: int, f1 :: int) < (s2, f2)) = (s1 < s2 \<or> s1 = s2 \<and> f1 < f2)"
    by (auto simp: less_prod_def)
  ultimately show ?thesis
    by (simp add: document_def table_md_def columns_strict)
qed

theorem C2_ordering_witness:
  "sorted_wrt (<) (map fst (sorted_items (get_default (fold store sample_records []) (Some ''facets()''))))
   \<and> map fst (sorted_items (get_default (fold store sample_records []) (Some ''facets()''))) = [(3, 7), (5, 2)]
   \<and> sorted_wrt (<) (columns sample_records)
   \<and> columns sample_records = [''ImplA'', ''ImplB'', ''ImplC'']"
proof -
  note w = C2_ordering [OF sample_run sample_reads]
  have 1: "sorted_wrt (<) (map fst (sorted_items (get_default (fold store sample_records []) (Some ''facets()''))))"
    using w [THEN conjunct2, THEN conjunct2, THEN conjunct1] .
  have 2: "sorted_wrt (<) (columns sample_records)"
    using w [THEN conjunct2, THEN conjunct2, THEN conjunct2, THEN conjunct2, THEN conjunct1] .
  have 3: "map fst (sorted_items (get_default (fold store sample_records []) (Some ''facets()''))) = [(3, 7), (5, 2)]"
    unfolding sample_store by (simp add: sample_data_def get_default_def sorted_items_def)
  from 1 2 3 sample_columns show ?thesis by blast
qed

subsection \<open>C3: a repeated key\<close>

text \<open>
  C3: when two records have the same (function, selectors, facets, implementation) key, and
  no record after the second has it, ingest raises no error, the aggregation holds the
  measurement of the second (the later) record at that key, and the cell rendered for the
  key is that measurement; the row of the key is a data row of the function's table.
\<close>

theorem C3_last_record_wins:
  assumes "map read_row (dict_reader csv) = map Inr (ms1 @ m1 # ms2 @ m2 # ms3)"
    and "key_of m2 = key_of m1"
    and "\<forall>m\<in>set ms3. key_of m \<noteq> key_of m1"
    and "impl m1 = Some i"
  shows "ingest (dict_reader csv) [] = Inr (fold store (ms1 @ m1 # ms2 @ m2 # ms3) [])
     \<and> lookup (fold store (ms1 @ m1 # ms2 @ m2 # ms3) []) (func m1) (selectors m1, facets m1) (impl m1)
         = Some (gas m2)
     \<and> cell (get_default (get_default (fold store (ms1 @ m1 # ms2 @ m2 # ms3) []) (func m1))
               (selectors m1, facets m1)) i
         = fmt_comma (gas m2)
     \<and> data_line names ((selectors m1, facets m1),
           get_default (get_default (fold store (ms1 @ m1 # ms2 @ m2 # ms3) []) (func m1))
             (selectors m1, facets m1))
         \<in> set (table_md f (get_default (fold store (ms1 @ m1 # ms2 @ m2 # ms3) []) (func m1)) names)"
proof -
  let ?ms = "ms1 @ m1 # ms2 @ m2 # ms3"
  have ing: "ingest (dict_reader csv) [] = Inr (fold store ?ms [])"
    using assms(1) by (rule ingest_reads)
  have "latest ((ms1 @ m1 # ms2) @ m2 # ms3) (key_of m2) = Some (gas m2)"
    by (rule latest_last) (simp add: assms(2,3))
  then have "latest ?ms (key_of m1) = Some (gas m2)"
    by (simp add: assms(2))
  then have "latest ?ms (func m1, (selectors m1, facets m1), impl m1) = Some (gas m2)"
    by (simp add: key_of_def)
  then have lk: "lookup (fold store ?ms []) (func m1) (selectors m1, facets m1) (impl m1) = Some (gas m2)"
    by (simp only: lookup_ingested)
  then have c: "cell (get_default (get_default (fold store ?ms []) (func m1)) (selectors m1, facets m1)) i
      = fmt_comma (gas m2)"
    by (simp add: cell_def lookup_def assms(4))
  have "m1 \<in> set ?ms" by simp
  then have "data_line names ((selectors m1, facets m1),
           get_default (get_default (fold store ?ms []) (func m1)) (selectors m1, facets m1))
         \<in> set (table_md f (get_default (fold store ?ms []) (func m1)) names)"
    by (intro data_line_member stored_row)
  with ing lk c show ?thesis by blast
qed

theorem C3_last_record_wins_witness:
  "lookup (fold store sample_records []) (Some ''facets()'') (5, 2) (Some ''ImplA'') = Some 100000
   \<and> cell (get_default (get_default (fold store sample_records []) (Some ''facets()'')) (5, 2)) ''ImplA''
       = ''100,000''"
proof -
  let ?m1 = "\<lparr>impl = Some ''ImplA'', func = Some ''facets()'', facets = 2, selectors = 5, gas = 100\<rparr>"
  let ?m2 = "\<lparr>impl = Some ''ImplA'', func = Some ''facets()'', facets = 2, selectors = 5, gas = 100000\<rparr>"
  let ?ms1 = "[\<lparr>impl = Some ''ImplB'', func = Some ''facets()'', facets = 2, selectors = 5, gas = 120000\<rparr>,
              \<lparr>impl = Some ''ImplA'', func = Some ''facets()'', facets = 7, selectors = 3, gas = 1234567\<rparr>]"
  let ?ms2 = "[\<lparr>impl = Some ''ImplC'', func = Some ''unknownFn()'', facets = 1, selectors = 1, gas = 5\<rparr>]"
  let ?ms3 = "[\<lparr>impl = Some ''ImplB'', func = Some ''facetAddresses()'', facets = 1, selectors = 10, gas = 999\<rparr>]"
  have split: "sample_records = ?ms1 @ ?m1 # ?ms2 @ ?m2 # ?ms3"
    by (simp add: sample_records_def)
  have h1: "map read_row (dict_reader sample_csv) = map Inr (?ms1 @ ?m1 # ?ms2 @ ?m2 # ?ms3)"
    using sample_reads unfolding split .
  have h2: "key_of ?m2 = key_of ?m1" by (simp add: key_of_def)
  have h3: "\<forall>m\<in>set ?ms3. key_of m \<noteq> key_of ?m1" by (simp add: key_of_def)
  have h4: "impl ?m1 = Some ''ImplA''" by simp
  note w = C3_last_record_wins [OF h1 h2 h3 h4, folded split]
  have f: "fmt_comma 100000 = ''100,000''" by (simp add: fmt_eval)
  from w [THEN conjunct2, THEN conjunct1] w [THEN conjunct2, THEN conjunct2, THEN conjunct1]
  show ?thesis by (simp add: f)
qed

subsection \<open>C7: rows that cannot be read\<close>

text \<open>
  C7 as stated: whenever a required header field is absent the entire run fails and no
  output file is written. The script never looks at the header itself; a field is missed
  only when a row is read. With a header that lacks Facets, Selectors and GasUsed and no
  data row the run succeeds and writes the report.
\<close>

theorem C7_counterexample:
  "main [[''Implementation'', ''Function'']] \<lparr>output_file = None, console = []\<rparr>
   = (None, \<lparr>output_file = Some (preamble
           @ join nl [heading_line ''facets()'', ''| Selectors/Facets |  |'',
                      ''|----------------|'', rule_line]
           @ join nl [heading_line ''facetAddresses()'', ''| Selectors/Facets |  |'',
                      ''|----------------|'', rule_line]),
        console = [''Markdown report generated: BENCHMARK_REPORT.md'']\<rparr>)"
  by (simp add: main_def run_def report_eval table_eval)

text \<open>
  C7, amended: if a data row lacks Facets, Selectors or GasUsed or has a value there that
  is not the text of an integer, or if a required header field is absent and the input has
  at least one data row that is not blank, the entire run fails. It ends with the exception
  of the first such row: the rows before it were read, no row is skipped and none after it
  is read, and the output file and the console are left as they were, since the file is
  written only after ingest and rendering are complete.
\<close>

theorem C7_bad_row_aborts:
  assumes "(\<exists>r\<in>set (dict_reader csv). bad_row r)
     \<or> (\<exists>h rows. csv = h # rows \<and> \<not> set required_fields \<subseteq> set h \<and> (\<exists>r\<in>set rows. r \<noteq> []))"
  shows "\<exists>rs1 r rs2 e. dict_reader csv = rs1 @ r # rs2 \<and> (\<forall>x\<in>set rs1. \<not> bad_row x) \<and> bad_row r
     \<and> read_row r = Inl e \<and> ingest (dict_reader csv) [] = Inl e \<and> run csv = Inl e
     \<and> main csv w = (Some e, w)"
proof -
  have "\<exists>r\<in>set (dict_reader csv). bad_row r"
    using assms
  proof
    assume "\<exists>r\<in>set (dict_reader csv). bad_row r"
    then show ?thesis .
  next
    assume "\<exists>h rows. csv = h # rows \<and> \<not> set required_fields \<subseteq> set h \<and> (\<exists>r\<in>set rows. r \<noteq> [])"
    then obtain h rows r where c: "csv = h # rows" and h: "\<not> set required_fields \<subseteq> set h"
      and r: "r \<in> set rows" "r \<noteq> []" by blast
    have "dict_row h r \<in> set (dict_reader csv)" using c r by simp
    moreover have "bad_row (dict_row h r)" using h by (rule missing_field_bad)
    ultimately show ?thesis by blast
  qed
  from split_list_first_prop [OF this]
  obtain rs1 r rs2 where split: "dict_reader csv = rs1 @ r # rs2"
    and bad: "bad_row r" and good: "\<forall>x\<in>set rs1. \<not> bad_row x"
    by blast
  from bad obtain e where e: "read_row r = Inl e" unfolding read_row_bad by blast
  from ingest_good [OF good] obtain d' where "ingest rs1 [] = Inr d'" by blast
  then have ing: "ingest (dict_reader csv) [] = Inl e"
    by (simp add: split ingest_append e)
  then have "run csv = Inl e" by (simp add: run_def)
  then have "main csv w = (Some e, w)" by (simp add: main_def)
  with split good bad e ing \<open>run csv = Inl e\<close> show ?thesis by blast
qed

theorem C7_bad_row_aborts_witness:
  "run [[''Implementation'', ''Function'', ''Facets'', ''Selectors'', ''GasUsed''],
        [''ImplA'', ''facets()'', ''2'', ''5'', ''100000''],
        [''ImplB'', ''facets()'', ''two'', ''5'', ''120000''],
        [''ImplC'', ''facets()'', ''2'', ''5'', ''130000'']] = Inl ValueError
   \<and> main [[''Implementation'', ''Function'', ''Facets'', ''Selectors'', ''GasUsed''],
        [''ImplA'', ''facets()'', ''2'', ''5'', ''100000''],
        [''ImplB'', ''facets()'', ''two'', ''5'', ''120000''],
        [''ImplC'', ''facets()'', ''2'', ''5'', ''130000'']]
        \<lparr>output_file = Some ''an older report'', console = []\<rparr>
      = (Some ValueError, \<lparr>output_file = Some ''an older report'', console = []\<rparr>)"
proof -
  let ?csv = "[[''Implementation'', ''Function'', ''Facets'', ''Selectors'', ''GasUsed''],
        [''ImplA'', ''facets()'', ''2'', ''5'', ''100000''],
        [''ImplB'', ''facets()'', ''two'', ''5'', ''120000''],
        [''ImplC'', ''facets()'', ''2'', ''5'', ''130000'']]"
  let ?r = "dict_row [''Implementation'', ''Function'', ''Facets'', ''Selectors'', ''GasUsed'']
        [''ImplB'', ''facets()'', ''two'', ''5'', ''120000'']"
  have b: "bad_row ?r"
    by (simp add: bad_row_def field_unparsable_def int_eval row_eval)
  have "?r \<in> set (dict_reader ?csv)" by simp
  with b have h: "(\<exists>r\<in>set (dict_reader ?csv). bad_row r)
     \<or> (\<exists>h rows. ?csv = h # rows \<and> \<not> set required_fields \<subseteq> set h \<and> (\<exists>r\<in>set rows. r \<noteq> []))"
    by blast
  from C7_bad_row_aborts [OF h, of "\<lparr>output_file = Some ''an older report'', console = []\<rparr>"]
  obtain e where e: "ingest (dict_reader ?csv) [] = Inl e" "run ?csv = Inl e"
    "main ?csv \<lparr>output_file = Some ''an older report'', console = []\<rparr>
       = (Some e, \<lparr>output_file = Some ''an older report'', console = []\<rparr>)"
    by blast
  have "ingest (dict_reader ?csv) [] = Inl ValueError"
    by (simp add: int_eval row_eval store_eval)
  with e(1) have "e = ValueError" by simp
  with e(2,3) show ?thesis by simp
qed

subsection \<open>C8: determinism\<close>

text \<open>
  C8: the document depends on the input alone. The one place where two runs on the same
  input can differ is the order in which the set of implementation names yields its
  elements; whatever that order is, the document is the same, the one \<open>run\<close> computes.
\<close>

theorem C8_deterministic:
  assumes "ingest (dict_reader csv) [] = Inr d"
    and "set_iteration d e1" and "set_iteration d e2"
  shows "report e1 d = report e2 d \<and> report e1 d = run csv"
proof -
  have eq: "py_sorted e = py_sorted (remdups (all_impls d))" if "set_iteration d e" for e
    using that by (intro py_sorted_set) (simp_all add: set_iteration_def)
  have "report e d = report (remdups (all_impls d)) d" if "set_iteration d e" for e
    by (simp add: report_def eq [OF that])
  then show ?thesis using assms by (simp add: run_def)
qed

theorem C8_deterministic_witness:
  "report [Some ''ImplC'', Some ''ImplA'', Some ''ImplB''] sample_data
     = report [Some ''ImplB'', Some ''ImplC'', Some ''ImplA''] sample_data
   \<and> report [Some ''ImplC'', Some ''ImplA'', Some ''ImplB''] sample_data = run sample_csv"
proof -
  have 1: "set_iteration sample_data [Some ''ImplC'', Some ''ImplA'', Some ''ImplB'']"
    by (auto simp: set_iteration_def sample_data_def all_impls_def)
  have 2: "set_iteration sample_data [Some ''ImplB'', Some ''ImplC'', Some ''ImplA'']"
    by (auto simp: set_iteration_def sample_data_def all_impls_def)
  show ?thesis using C8_deterministic [OF sample_ingest 1 2] .
qed

subsection \<open>C10: negative numbers\<close>

text \<open>
  C10: there is no check that Facets, Selectors and GasUsed are non-negative. A row whose
  numeric fields are the decimal text of any integers, negative ones included, is read
  without error with those values; a negative measurement is rendered with its sign in front
  of the grouped digits, \<open>-1234\<close> as \<open>-1,234\<close>; and a run on such a row writes them into
  the table.
\<close>

theorem C10_negative_numbers:
  "read_row (dict_row [''Implementation'', ''Function'', ''Facets'', ''Selectors'', ''GasUsed'']
       [i, f, py_str a, py_str b, py_str c])
     = Inr \<lparr>impl = Some i, func = Some f, facets = a, selectors = b, gas = c\<rparr>
   \<and> fmt_comma (- int n - 1) = CHR ''-'' # fmt_comma (int n + 1)
   \<and> py_int ''-1234'' = Inr (- 1234)
   \<and> fmt_comma (- 1234) = ''-1,234''
   \<and> run [[''Implementation'', ''Function'', ''Facets'', ''Selectors'', ''GasUsed''],
           [''ImplA'', ''facets()'', ''-2'', ''-5'', ''-1234'']]
       = Inr (preamble
           @ join nl [heading_line ''facets()'', ''| Selectors/Facets | ImplA |'',
                      ''|----------------|-----|'', ''| -5/-2 | -1,234 |'', rule_line]
           @ join nl [heading_line ''facetAddresses()'', ''| Selectors/Facets | ImplA |'',
                      ''|----------------|-----|'', rule_line])"
proof -
  have 1: "read_row (dict_row [''Implementation'', ''Function'', ''Facets'', ''Selectors'', ''GasUsed'']
       [i, f, py_str a, py_str b, py_str c])
     = Inr \<lparr>impl = Some i, func = Some f, facets = a, selectors = b, gas = c\<rparr>"
    by (simp add: row_eval py_int_arg_def py_int_py_str)
  have 2: "fmt_comma (- int n - 1) = CHR ''-'' # fmt_comma (int n + 1)"
  proof -
    have "nat \<bar>- int n - 1\<bar> = nat \<bar>int n + 1\<bar>" by simp
    then show ?thesis by (simp add: fmt_comma_def sign_str_def)
  qed
  have 3: "py_int ''-1234'' = Inr (- 1234)" by (simp add: int_eval)
  have 4: "fmt_comma (- 1234) = ''-1,234''" by (simp add: fmt_eval)
  have i: "ingest (dict_reader [[''Implementation'', ''Function'', ''Facets'', ''Selectors'', ''GasUsed''],
           [''ImplA'', ''facets()'', ''-2'', ''-5'', ''-1234'']]) []
      = Inr [(Some ''facets()'', [((- 5, - 2), [(Some ''ImplA'', - 1234)])])]"
    by (simp add: int_eval row_eval store_eval)
  have 5: "run [[''Implementation'', ''Function'', ''Facets'', ''Selectors'', ''GasUsed''],
           [''ImplA'', ''facets()'', ''-2'', ''-5'', ''-1234'']]
       = Inr (preamble
           @ join nl [heading_line ''facets()'', ''| Selectors/Facets | ImplA |'',
                      ''|----------------|-----|'', ''| -5/-2 | -1,234 |'', rule_line]
           @ join nl [heading_line ''facetAddresses()'', ''| Selectors/Facets | ImplA |'',
                      ''|----------------|-----|'', rule_line])"
    unfolding run_def i by (simp add: report_eval table_eval fmt_eval)
  from 1 2 3 4 5 show ?thesis by blast
qed


end
